theory Spec2Isabelle
  imports Main "HOL-Library.AList"
begin

section \<open>Data model of sourceTracking.ts\<close>

text \<open>
  JavaScript values that may be \<^verbatim>\<open>undefined\<close> are options. A string is truthy when it
  is defined and non-empty; this is the test behind \<^verbatim>\<open>element.type && element.name\<close>
  and behind \<^verbatim>\<open>.filter((filename) => filename)\<close>.
\<close>

definition truthy :: "string option \<Rightarrow> bool" where
  "truthy s = (case s of None \<Rightarrow> False | Some t \<Rightarrow> t \<noteq> [])"

datatype origin = Local | Remote

datatype state = Add | Delete | Changed | Unchanged | Moved

text \<open>
  \<^verbatim>\<open>RemoteChangeElement\<close> is declared in shared/remoteSourceTrackingService, which is not
  among the sources. Its fields are the ones sourceTracking.ts reads (type, name, deleted)
  or writes (modified). The record is shared with
  \<^verbatim>\<open>ChangeResult = Partial<RemoteChangeElement> & { origin; filenames? }\<close>, in which
  every field is optional; that the updates of the remote ledger carry their deleted
  flag is stated where it is used.
  \<open>origin\<close> is an option as well: the object literal of populateFilePaths spreads
  \<^verbatim>\<open>elementMap.get(key)\<close>, which is \<^verbatim>\<open>undefined\<close> for a key that is not in the map.
\<close>

record RemoteChangeElement =
  type :: "string option"
  name :: "string option"
  deleted :: "bool option"
  modified :: "bool option"

record ChangeResult = RemoteChangeElement +
  origin :: "origin option"
  filenames :: "string list option"

record ChangeOptions =
  opt_origin :: "origin option"
  opt_state :: state

text \<open>
  The values the code throws. \<open>Error m\<close> is \<^verbatim>\<open>new Error(m)\<close>: an object whose name is
  \<^verbatim>\<open>Error\<close> and that has a message and nothing else. The message of getKeyFromObject
  embeds \<^verbatim>\<open>JSON.stringify(element)\<close>; that error is \<open>UnableToCompleteKey\<close>, carrying
  the type and the name of the element instead of the text. \<open>ConflictError\<close> is the
  interface of lines 43-47 (message, name "conflict", conflicts). \<open>TypeError\<close> is the
  method call on a ledger field that is still \<^verbatim>\<open>undefined\<close>, or the call of a method
  that the object does not have.
\<close>

datatype error =
    Error string
  | UnableToCompleteKey "string option" "string option"
  | ConflictError string "ChangeResult list"
  | TypeError

fun error_name :: "error \<Rightarrow> string" where
  "error_name (Error m) = ''Error''"
| "error_name (UnableToCompleteKey t n) = ''Error''"
| "error_name (ConflictError m cs) = ''conflict''"
| "error_name TypeError = ''TypeError''"

fun error_conflicts :: "error \<Rightarrow> ChangeResult list option" where
  "error_conflicts (ConflictError m cs) = Some cs"
| "error_conflicts e = None"

section \<open>Collaborators\<close>

text \<open>
  The two ledgers are what they report when asked. A \<open>SourceComponent\<close> of the metadata
  resolver has a full name, the name of its type, an optional descriptor path (xml) and
  the content paths walkContent() yields.
\<close>

record ShadowRepo =
  getModifyFilenames :: "string list"
  getDeleteFilenames :: "string list"
  getAddFilenames :: "string list"

record RemoteSourceTrackingService =
  retrieveUpdates :: "RemoteChangeElement list"

record SourceComponent =
  fullName :: string
  type_name :: string
  xml :: "string option"
  walkContent :: "string list"

record NamedPackageDir =
  path :: string

type_synonym ComponentLike = "string option \<times> string option"

text \<open>
  Everything sourceTracking.ts imports and calls, as parameters: getMetadataKey of
  shared/remoteSourceTrackingService; isAbsolute and relative of the path module;
  ShadowRepo.create and RemoteSourceTrackingService.getInstance; of source-deploy-retrieve
  the ComponentSet constructor with its size, ComponentSet.fromSource followed by
  getSourceComponents().toArray(), and MetadataResolver.getComponentsFromPath, whose
  exception the code catches.
\<close>

record 'cs env =
  getMetadataKey :: "string \<Rightarrow> string \<Rightarrow> string"
  isAbsolute :: "string \<Rightarrow> bool"
  relative :: "string \<Rightarrow> string \<Rightarrow> string"
  ShadowRepo_create :: ShadowRepo
  getInstance :: RemoteSourceTrackingService
  new_ComponentSet :: "ComponentLike list \<Rightarrow> 'cs"
  size_of :: "'cs \<Rightarrow> nat"
  fromSource :: "string list \<Rightarrow> 'cs \<Rightarrow> SourceComponent list"
  getComponentsFromPath :: "string \<Rightarrow> error + SourceComponent list"

text \<open>The calls to the collaborators that have an effect or read a ledger, in order.\<close>

datatype call =
    Call_ShadowRepo_create | Call_getStatus
  | Call_getModifyFilenames | Call_getDeleteFilenames | Call_getAddFilenames
  | Call_getInstance | Call_retrieveUpdates
  | Call_writeConflictTable | Call_deployLocalChanges

text \<open>
  The fields of class SourceTracking that the modelled methods use, and the calls made
  so far. The two ledger fields are \<^verbatim>\<open>undefined\<close> until first use.
\<close>

record SourceTracking =
  projectPath :: string
  packagesDirs :: "NamedPackageDir list"
  localRepo :: "ShadowRepo option"
  remoteSourceTrackingService :: "RemoteSourceTrackingService option"
  calls :: "call list"

definition new_SourceTracking :: "string \<Rightarrow> NamedPackageDir list \<Rightarrow> SourceTracking" where
  "new_SourceTracking pp dirs =
     \<lparr>projectPath = pp, packagesDirs = dirs, localRepo = None,
      remoteSourceTrackingService = None, calls = []\<rparr>"

section \<open>getKeyFromObject\<close>

definition getKeyFromObject ::
  "'cs env \<Rightarrow> 'a RemoteChangeElement_scheme \<Rightarrow> error + string" where
  "getKeyFromObject env element =
     (case (type element, name element) of
        (Some t, Some n) \<Rightarrow>
          if t \<noteq> [] \<and> n \<noteq> [] then Inr (getMetadataKey env t n)
          else Inl (UnableToCompleteKey (type element) (name element))
      | _ \<Rightarrow> Inl (UnableToCompleteKey (type element) (name element)))"

definition getKeyFromStrings :: "'cs env \<Rightarrow> string \<Rightarrow> string \<Rightarrow> string" where
  "getKeyFromStrings env = getMetadataKey env"

section \<open>Lazy construction of the ledgers\<close>

text \<open>
  ensureLocalTracking (lines 150-161) and ensureRemoteTracking (lines 168-181) are async
  methods: a call runs in one piece up to its next \<^verbatim>\<open>await\<close>, and pieces of other calls
  may run before it is resumed. A task is a call at one of these points: about to start,
  waiting for ShadowRepo.create, for getStatus, for getInstance or for retrieveUpdates,
  or returned. \<open>resume\<close> runs one piece. The test of the field is in the first piece and
  the assignment in the second.
\<close>

datatype task =
    LocalStart
  | LocalAwaitCreate
  | LocalAwaitStatus
  | RemoteStart bool
  | RemoteAwaitInstance bool
  | RemoteAwaitUpdates
  | Returned

fun resume :: "'cs env \<Rightarrow> task \<Rightarrow> SourceTracking \<Rightarrow> task \<times> SourceTracking" where
  "resume env LocalStart st =
     (if localRepo st \<noteq> None then (Returned, st)
      else (LocalAwaitCreate, st\<lparr>calls := calls st @ [Call_ShadowRepo_create]\<rparr>))"
| "resume env LocalAwaitCreate st =
     (LocalAwaitStatus,
      st\<lparr>localRepo := Some (ShadowRepo_create env), calls := calls st @ [Call_getStatus]\<rparr>)"
| "resume env LocalAwaitStatus st = (Returned, st)"
| "resume env (RemoteStart initializeWithQuery) st =
     (if remoteSourceTrackingService st \<noteq> None then (Returned, st)
      else (RemoteAwaitInstance initializeWithQuery,
            st\<lparr>calls := calls st @ [Call_getInstance]\<rparr>))"
| "resume env (RemoteAwaitInstance initializeWithQuery) st =
     (if initializeWithQuery then
        (RemoteAwaitUpdates,
         st\<lparr>remoteSourceTrackingService := Some (getInstance env),
            calls := calls st @ [Call_retrieveUpdates]\<rparr>)
      else (Returned, st\<lparr>remoteSourceTrackingService := Some (getInstance env)\<rparr>))"
| "resume env RemoteAwaitUpdates st = (Returned, st)"
| "resume env Returned st = (Returned, st)"

text \<open>
  A call that is awaited with no other call in between: its pieces one after the other.
  No call has more than three.
\<close>

definition awaited :: "'cs env \<Rightarrow> task \<Rightarrow> SourceTracking \<Rightarrow> task \<times> SourceTracking" where
  "awaited env t st =
     (case resume env t st of
        (t1, st1) \<Rightarrow> (case resume env t1 st1 of (t2, st2) \<Rightarrow> resume env t2 st2))"

definition ensureLocalTracking :: "'cs env \<Rightarrow> SourceTracking \<Rightarrow> SourceTracking" where
  "ensureLocalTracking env st = snd (awaited env LocalStart st)"

definition ensureRemoteTracking :: "'cs env \<Rightarrow> bool \<Rightarrow> SourceTracking \<Rightarrow> SourceTracking" where
  "ensureRemoteTracking env initializeWithQuery st =
     snd (awaited env (RemoteStart initializeWithQuery) st)"

text \<open>
  Calls that overlap, as under \<^verbatim>\<open>Promise.all\<close>: the tasks that were started, and a
  schedule that names, piece after piece, the task that runs next.
\<close>

fun interleave ::
  "'cs env \<Rightarrow> nat list \<Rightarrow> task list \<times> SourceTracking \<Rightarrow> task list \<times> SourceTracking" where
  "interleave env [] running = running"
| "interleave env (i # schedule) (tasks, st) =
     (if i < length tasks then
        (case resume env (tasks ! i) st of
           (t, st') \<Rightarrow> interleave env schedule (tasks[i := t], st'))
      else interleave env schedule (tasks, st))"

section \<open>getChanges\<close>

definition localChange :: "string \<Rightarrow> ChangeResult" where
  "localChange filename =
     \<lparr>type = None, name = None, deleted = None, modified = None,
      origin = Some Local, filenames = Some [filename]\<rparr>"

definition remoteChange :: "RemoteChangeElement \<Rightarrow> ChangeResult" where
  "remoteChange change =
     \<lparr>type = type change, name = name change, deleted = deleted change,
      modified = modified change, origin = Some Remote, filenames = None\<rparr>"

definition askLocalRepo ::
  "(ShadowRepo \<Rightarrow> string list) \<Rightarrow> call \<Rightarrow> SourceTracking
     \<Rightarrow> (error + ChangeResult list) \<times> SourceTracking" where
  "askLocalRepo getFilenames c st =
     (case localRepo st of
        None \<Rightarrow> (Inl TypeError, st)
      | Some repo \<Rightarrow> (Inr (map localChange (getFilenames repo)), st\<lparr>calls := calls st @ [c]\<rparr>))"

definition getRemote ::
  "state \<Rightarrow> SourceTracking \<Rightarrow> (error + ChangeResult list) \<times> SourceTracking" where
  "getRemote s st =
     (case remoteSourceTrackingService st of
        None \<Rightarrow> (Inl TypeError, st)
      | Some service \<Rightarrow>
          (Inr (map remoteChange
                 (filter (\<lambda>change. deleted change = Some (s = Delete)) (retrieveUpdates service))),
           st\<lparr>calls := calls st @ [Call_retrieveUpdates]\<rparr>))"

definition getChanges ::
  "'cs env \<Rightarrow> ChangeOptions option \<Rightarrow> SourceTracking
     \<Rightarrow> (error + ChangeResult list) \<times> SourceTracking" where
  "getChanges env options st =
     (case options of
        None \<Rightarrow> (Inr [], st)
      | Some opts \<Rightarrow>
          if opt_origin opts = Some Local then
            (let st1 = ensureLocalTracking env st in
             if opt_state opts = Changed then askLocalRepo getModifyFilenames Call_getModifyFilenames st1
             else if opt_state opts = Delete then askLocalRepo getDeleteFilenames Call_getDeleteFilenames st1
             else if opt_state opts = Add then askLocalRepo getAddFilenames Call_getAddFilenames st1
             else (Inr [], st1))
          else if opt_origin opts = Some Remote then
            getRemote (opt_state opts) (ensureRemoteTracking env False st)
          else (Inr [], st))"

section \<open>populateFilePaths\<close>

text \<open>
  A \<^verbatim>\<open>Map\<close> keeps its keys in insertion order and \<^verbatim>\<open>set\<close> on a key that is present
  replaces the value in place: an association list under \<open>AList.update\<close>, read with
  \<open>map_of\<close>. \<^verbatim>\<open>Array.from(m.values())\<close> is \<open>map snd\<close>.
\<close>

text \<open>A template literal prints an undefined value as the word undefined.\<close>

definition template :: "string option \<Rightarrow> string" where
  "template s = (case s of None \<Rightarrow> ''undefined'' | Some t \<Rightarrow> t)"

fun join :: "string \<Rightarrow> string list \<Rightarrow> string" where
  "join sep [] = []"
| "join sep [x] = x"
| "join sep (x # y # ys) = x @ sep @ join sep (y # ys)"

definition emptyObject :: ChangeResult where
  "emptyObject =
     \<lparr>type = None, name = None, deleted = None, modified = None,
      origin = None, filenames = None\<rparr>"

text \<open>\<^verbatim>\<open>{ ...x }\<close> of a map lookup: spreading \<^verbatim>\<open>undefined\<close> gives the empty object.\<close>

definition spread :: "ChangeResult option \<Rightarrow> ChangeResult" where
  "spread x = (case x of None \<Rightarrow> emptyObject | Some c \<Rightarrow> c)"

definition truthyStrings :: "string option list \<Rightarrow> string list" where
  "truthyStrings xs = List.map_filter (\<lambda>s. if truthy s then s else None) xs"

text \<open>Lines 260-263: the first element without a key aborts the loop.\<close>

fun setElements ::
  "'cs env \<Rightarrow> ChangeResult list \<Rightarrow> (string \<times> ChangeResult) list
     \<Rightarrow> error + (string \<times> ChangeResult) list" where
  "setElements env [] elementMap = Inr elementMap"
| "setElements env (element # elements) elementMap =
     (case getKeyFromObject env element of
        Inl e \<Rightarrow> Inl e
      | Inr key \<Rightarrow> setElements env elements (AList.update key element elementMap))"

text \<open>Lines 267-281: the body of the loop over the local components.\<close>

definition setFilenames ::
  "'cs env \<Rightarrow> (string \<times> ChangeResult) list \<Rightarrow> SourceComponent
     \<Rightarrow> (string \<times> ChangeResult) list" where
  "setFilenames env elementMap matchingComponent =
     (if fullName matchingComponent \<noteq> [] \<and> type_name matchingComponent \<noteq> [] then
        (let key = getKeyFromStrings env (type_name matchingComponent) (fullName matchingComponent)
         in AList.update key
              ((spread (map_of elementMap key))
                 \<lparr>modified := Some True,
                  filenames := Some (truthyStrings
                    (xml matchingComponent # map Some (walkContent matchingComponent)))\<rparr>)
              elementMap)
      else elementMap)"

definition populateFilePaths ::
  "'cs env \<Rightarrow> SourceTracking \<Rightarrow> ChangeResult list \<Rightarrow> error + ChangeResult list" where
  "populateFilePaths env st elements =
     (if length elements = 0 then Inr []
      else
        (let remoteChangesAsComponentLike = map (\<lambda>element. (type element, name element)) elements;
             remoteChangesAsComponentSet = new_ComponentSet env remoteChangesAsComponentLike
         in if size_of env remoteChangesAsComponentSet < length elements then
              Inl (Error (''unable to generate complete component set for '' @
                     join '','' (map (\<lambda>element. template (name element) @ ''('' @
                                        template (type element) @ '')'') elements)))
            else
              (let matchingLocalSourceComponentsSet =
                     fromSource env (map path (packagesDirs st)) remoteChangesAsComponentSet
               in case setElements env elements [] of
                    Inl e \<Rightarrow> Inl e
                  | Inr elementMap \<Rightarrow>
                      Inr (map snd (foldl (setFilenames env) elementMap
                                      matchingLocalSourceComponentsSet)))))"

section \<open>populateTypesAndNames\<close>

text \<open>
  A \<^verbatim>\<open>Set\<close> of objects compares them by identity, so the objects that reach one carry
  their identity: \<open>Arg i\<close> for an object the caller passes in, \<open>New n\<close> for the n-th
  object literal the call evaluates. No object is modified after its creation, so an
  object is its identity and its value. A Set keeps insertion order.
\<close>

datatype ref = Arg nat | New nat

type_synonym obj = "ref \<times> ChangeResult"

definition Set_add :: "obj \<Rightarrow> obj list \<Rightarrow> obj list" where
  "Set_add x s = (if fst x \<in> fst ` set s then s else s @ [x])"

definition new_Set :: "obj list \<Rightarrow> obj list" where
  "new_Set xs = foldl (\<lambda>s x. Set_add x s) [] xs"

text \<open>\<^verbatim>\<open>element.filenames?.map\<close>, and \<^verbatim>\<open>.flat().filter(stringGuard)\<close> of the filenames.\<close>

definition filenamesOf :: "ChangeResult \<Rightarrow> string list" where
  "filenamesOf element = (case filenames element of None \<Rightarrow> [] | Some fs \<Rightarrow> fs)"

definition ensureRelative :: "'cs env \<Rightarrow> SourceTracking \<Rightarrow> string \<Rightarrow> string" where
  "ensureRelative env st filePath =
     (if isAbsolute env filePath then relative env (projectPath st) filePath else filePath)"

text \<open>Lines 306-316: an exception of the resolver leaves no component.\<close>

definition componentsOf :: "'cs env \<Rightarrow> string \<Rightarrow> SourceComponent list" where
  "componentsOf env filename =
     (case getComponentsFromPath env filename of Inl e \<Rightarrow> [] | Inr cs \<Rightarrow> cs)"

text \<open>Lines 322-326.\<close>

definition setByFilename ::
  "'cs env \<Rightarrow> SourceTracking \<Rightarrow> (string \<times> obj) list \<Rightarrow> obj \<Rightarrow> (string \<times> obj) list" where
  "setByFilename env st elementMap element =
     foldl (\<lambda>m filename. AList.update (ensureRelative env st filename) element m)
       elementMap (filenamesOf (snd element))"

text \<open>Lines 333-340, with the number of object literals evaluated so far.\<close>

definition setTypeAndName ::
  "SourceComponent \<Rightarrow> (string \<times> obj) list \<times> nat \<Rightarrow> string option
     \<Rightarrow> (string \<times> obj) list \<times> nat" where
  "setTypeAndName matchingComponent acc filename =
     (case filename of
        None \<Rightarrow> acc
      | Some f \<Rightarrow>
          if f = [] then acc
          else (case map_of (fst acc) f of
                  None \<Rightarrow> acc
                | Some element \<Rightarrow>
                    (AList.update f
                       (New (snd acc),
                        (snd element)\<lparr>type := Some (type_name matchingComponent),
                                      name := Some (fullName matchingComponent)\<rparr>)
                       (fst acc),
                     Suc (snd acc))))"

definition setTypesAndNames ::
  "(string \<times> obj) list \<times> nat \<Rightarrow> SourceComponent \<Rightarrow> (string \<times> obj) list \<times> nat" where
  "setTypesAndNames acc matchingComponent =
     (if fullName matchingComponent \<noteq> [] \<and> type_name matchingComponent \<noteq> [] then
        foldl (setTypeAndName matchingComponent) acc
          (xml matchingComponent # map Some (walkContent matchingComponent))
      else acc)"

definition populateTypesAndNames ::
  "'cs env \<Rightarrow> SourceTracking \<Rightarrow> obj list \<Rightarrow> bool \<Rightarrow> obj list" where
  "populateTypesAndNames env st elements excludeUnresolvable =
     (if length elements = 0 then []
      else
        (let sourceComponents =
               concat (map (componentsOf env) (concat (map (\<lambda>element. filenamesOf (snd element)) elements)));
             elementMap = foldl (setByFilename env st) [] elements;
             elementMap' = fst (foldl setTypesAndNames (elementMap, 0) sourceComponents)
         in if excludeUnresolvable then
              filter (\<lambda>changeResult. truthy (name (snd changeResult)) \<and> truthy (type (snd changeResult)))
                (new_Set (map snd elementMap'))
            else new_Set (map snd elementMap')))"

section \<open>getConflicts\<close>

text \<open>Lines 363-368.\<close>

definition indexByFilename :: "ChangeResult list \<Rightarrow> (string \<times> ChangeResult) list" where
  "indexByFilename remoteChanges =
     foldl (\<lambda>fileNameIndex change.
              foldl (\<lambda>m filename. AList.update filename change m) fileNameIndex (filenamesOf change))
       [] remoteChanges"

text \<open>
  Lines 374-376: the object added to the Set is a new object literal, the \<open>n\<close>-th of
  the call, holding a copy of the fields of the indexed change.
\<close>

definition addConflict ::
  "(string \<times> ChangeResult) list \<Rightarrow> obj list \<times> nat \<Rightarrow> string \<Rightarrow> obj list \<times> nat" where
  "addConflict fileNameIndex acc filename =
     (case map_of fileNameIndex filename of
        None \<Rightarrow> acc
      | Some change \<Rightarrow> (Set_add (New (snd acc), change) (fst acc), Suc (snd acc)))"

definition findConflicts ::
  "(string \<times> ChangeResult) list \<Rightarrow> ChangeResult list \<Rightarrow> obj list \<times> nat" where
  "findConflicts fileNameIndex localChanges =
     foldl (\<lambda>acc change. foldl (addConflict fileNameIndex) acc (filenamesOf change))
       ([], 0) localChanges"

definition getConflicts ::
  "'cs env \<Rightarrow> SourceTracking \<Rightarrow> (error + ChangeResult list) \<times> SourceTracking" where
  "getConflicts env st =
     (let st1 = ensureLocalTracking env (ensureRemoteTracking env False st);
          (changed, st2) = getChanges env (Some \<lparr>opt_origin = Some Local, opt_state = Changed\<rparr>) st1;
          (added, st3) = getChanges env (Some \<lparr>opt_origin = Some Local, opt_state = Add\<rparr>) st2
      in case changed of
           Inl e \<Rightarrow> (Inl e, st3)
         | Inr cs \<Rightarrow>
            (case added of
               Inl e \<Rightarrow> (Inl e, st3)
             | Inr as \<Rightarrow>
                (let localChanges = cs @ as;
                     (remote, st4) =
                       getChanges env (Some \<lparr>opt_origin = Some Remote, opt_state = Changed\<rparr>) st3
                 in case remote of
                      Inl e \<Rightarrow> (Inl e, st4)
                    | Inr rs \<Rightarrow>
                       (case populateFilePaths env st4 rs of
                          Inl e \<Rightarrow> (Inl e, st4)
                        | Inr remoteChanges \<Rightarrow>
                            (Inr (map snd (fst (findConflicts (indexByFilename remoteChanges)
                                                   localChanges))),
                             st4)))))"

section \<open>The push command\<close>

text \<open>
  \<^verbatim>\<open>run\<close> of commands/source/push.ts. Class SourceTracking does not define
  deployLocalChanges: lines 67-69 of sourceTracking.ts are a comment. The call of line 36
  is a call of \<^verbatim>\<open>undefined\<close> and throws a TypeError; nothing is deployed and lines 41-47
  are not reached. \<open>deployResult\<close> is what the method would return.
\<close>

record flags =
  forceoverwrite :: bool
  json :: bool

definition deploy :: "flags \<Rightarrow> 'r \<Rightarrow> SourceTracking \<Rightarrow> (error + 'r) \<times> SourceTracking" where
  "deploy fl deployResult tracking = (Inl TypeError, tracking)"

definition run ::
  "'cs env \<Rightarrow> flags \<Rightarrow> string \<Rightarrow> NamedPackageDir list \<Rightarrow> 'r
     \<Rightarrow> (error + 'r) \<times> SourceTracking" where
  "run env fl pp dirs deployResult =
     (let tracking = new_SourceTracking pp dirs in
      if \<not> forceoverwrite fl then
        (case getConflicts env tracking of
           (Inl e, tracking') \<Rightarrow> (Inl e, tracking')
         | (Inr conflicts, tracking') \<Rightarrow>
             if length conflicts > 0 then
               (Inl (Error ''conflicts detected''),
                tracking'\<lparr>calls := calls tracking' @ [Call_writeConflictTable]\<rparr>)
             else deploy fl deployResult tracking')
      else deploy fl deployResult tracking)"

section \<open>Sequences of calls on one tracking object\<close>

text \<open>
  What a client does with one SourceTracking object during a process: the public methods
  modelled above, called one after the other, each on the object the previous one left.
\<close>

datatype operation =
    EnsureLocalTracking
  | EnsureRemoteTracking bool
  | GetChanges "ChangeOptions option"
  | GetConflicts

fun perform :: "'cs env \<Rightarrow> SourceTracking \<Rightarrow> operation \<Rightarrow> SourceTracking" where
  "perform env st EnsureLocalTracking = ensureLocalTracking env st"
| "perform env st (EnsureRemoteTracking initializeWithQuery) =
     ensureRemoteTracking env initializeWithQuery st"
| "perform env st (GetChanges options) = snd (getChanges env options st)"
| "perform env st GetConflicts = snd (getConflicts env st)"

definition constructions :: "SourceTracking \<Rightarrow> nat \<times> nat" where
  "constructions st =
     (count_list (calls st) Call_ShadowRepo_create, count_list (calls st) Call_getInstance)"

definition constructedOnce :: "SourceTracking \<Rightarrow> bool" where
  "constructedOnce st =
     (constructions st =
        (if localRepo st = None then 0 else 1,
         if remoteSourceTrackingService st = None then 0 else 1))"

section \<open>The scenarios\<close>

text \<open>
  The Foo scenario: the remote ledger reports the changed identity ApexClass Foo, whose
  local component has the descriptor classes/Foo.cls-meta.xml and the content
  classes/Foo.cls; the local ledger reports classes/Foo.cls as added. The component set
  of the scenario is the list of the distinct identities requested; the resolver knows the
  two paths of Foo and fails on any other path.
\<close>

definition fooUpdate :: RemoteChangeElement where
  "fooUpdate = \<lparr>type = Some ''ApexClass'', name = Some ''Foo'', deleted = Some False, modified = None\<rparr>"

definition fooComponent :: SourceComponent where
  "fooComponent =
     \<lparr>fullName = ''Foo'', type_name = ''ApexClass'',
      xml = Some ''classes/Foo.cls-meta.xml'', walkContent = [''classes/Foo.cls'']\<rparr>"

definition fooConflict :: ChangeResult where
  "fooConflict =
     \<lparr>type = Some ''ApexClass'', name = Some ''Foo'', deleted = Some False, modified = Some True,
      origin = Some Remote,
      filenames = Some [''classes/Foo.cls-meta.xml'', ''classes/Foo.cls'']\<rparr>"

definition fooEnv :: "ComponentLike list env" where
  "fooEnv =
     \<lparr>getMetadataKey = (\<lambda>t n. t @ ''__'' @ n),
      isAbsolute = (\<lambda>p. take 1 p = ''/''),
      relative = (\<lambda>from to. drop (Suc (length from)) to),
      ShadowRepo_create =
        \<lparr>getModifyFilenames = [], getDeleteFilenames = [], getAddFilenames = [''classes/Foo.cls'']\<rparr>,
      getInstance = \<lparr>retrieveUpdates = [fooUpdate]\<rparr>,
      new_ComponentSet = remdups,
      size_of = length,
      fromSource = (\<lambda>fsPaths include.
         if (Some ''ApexClass'', Some ''Foo'') \<in> set include then [fooComponent] else []),
      getComponentsFromPath = (\<lambda>p.
         if p = ''classes/Foo.cls'' \<or> p = ''classes/Foo.cls-meta.xml'' then Inr [fooComponent]
         else Inl (Error ''could not resolve''))\<rparr>"

definition fooTracking :: SourceTracking where
  "fooTracking = new_SourceTracking ''/project'' [\<lparr>path = ''force-app''\<rparr>]"

text \<open>The same project when both files of Foo are modified locally.\<close>

definition bothFilesEnv :: "ComponentLike list env" where
  "bothFilesEnv =
     fooEnv\<lparr>ShadowRepo_create :=
       \<lparr>getModifyFilenames = [''classes/Foo.cls'', ''classes/Foo.cls-meta.xml''],
        getDeleteFilenames = [], getAddFilenames = []\<rparr>\<rparr>"

text \<open>The same project when the only local change is the added file classes/Bar.cls.\<close>

definition barEnv :: "ComponentLike list env" where
  "barEnv =
     fooEnv\<lparr>ShadowRepo_create :=
       \<lparr>getModifyFilenames = [], getDeleteFilenames = [],
        getAddFilenames = [''classes/Bar.cls'']\<rparr>\<rparr>"

text \<open>The same project when the remote ledger also reports the deleted ApexClass Bar.\<close>

definition barDeleted :: RemoteChangeElement where
  "barDeleted = \<lparr>type = Some ''ApexClass'', name = Some ''Bar'', deleted = Some True, modified = None\<rparr>"

definition bothStatesEnv :: "ComponentLike list env" where
  "bothStatesEnv = fooEnv\<lparr>getInstance := \<lparr>retrieveUpdates = [fooUpdate, barDeleted]\<rparr>\<rparr>"

section \<open>Invariant of the filename-keyed map\<close>

text \<open>Every value of the map of populateTypesAndNames has at least one filename.\<close>

definition hasFilenames :: "(string \<times> obj) list \<Rightarrow> bool" where
  "hasFilenames m = (\<forall>p\<in>set m. filenamesOf (snd (snd p)) \<noteq> [])"

section \<open>Properties\<close>

subsection \<open>Lazy construction\<close>

text \<open>An awaited call returns, and what it does in all is the test and the construction.\<close>

lemma awaited_returns:
  "fst (awaited env LocalStart st) = Returned"
  "fst (awaited env (RemoteStart q) st) = Returned"
  by (simp_all add: awaited_def)

lemma ensureLocalTracking_eq:
  "ensureLocalTracking env st =
     (if localRepo st \<noteq> None then st
      else st\<lparr>localRepo := Some (ShadowRepo_create env),
              calls := calls st @ [Call_ShadowRepo_create, Call_getStatus]\<rparr>)"
  by (simp add: ensureLocalTracking_def awaited_def)

lemma ensureRemoteTracking_eq:
  "ensureRemoteTracking env initializeWithQuery st =
     (if remoteSourceTrackingService st \<noteq> None then st
      else st\<lparr>remoteSourceTrackingService := Some (getInstance env),
              calls := calls st @ [Call_getInstance]
                @ (if initializeWithQuery then [Call_retrieveUpdates] else [])\<rparr>)"
  by (simp add: ensureRemoteTracking_def awaited_def)

lemma ensureLocal_fields [simp]:
  "packagesDirs (ensureLocalTracking env st) = packagesDirs st"
  "projectPath (ensureLocalTracking env st) = projectPath st"
  "remoteSourceTrackingService (ensureLocalTracking env st) = remoteSourceTrackingService st"
  "localRepo (ensureLocalTracking env st) \<noteq> None"
  by (simp_all add: ensureLocalTracking_eq)

lemma ensureRemote_fields [simp]:
  "packagesDirs (ensureRemoteTracking env q st) = packagesDirs st"
  "projectPath (ensureRemoteTracking env q st) = projectPath st"
  "localRepo (ensureRemoteTracking env q st) = localRepo st"
  "remoteSourceTrackingService (ensureRemoteTracking env q st) \<noteq> None"
  by (simp_all add: ensureRemoteTracking_eq)

lemma ensureLocal_noop: "localRepo st = Some repo \<Longrightarrow> ensureLocalTracking env st = st"
  by (simp add: ensureLocalTracking_eq)

lemma ensureRemote_noop:
  "remoteSourceTrackingService st = Some service \<Longrightarrow> ensureRemoteTracking env q st = st"
  by (simp add: ensureRemoteTracking_eq)

lemma once_ensureLocal: "constructedOnce st \<Longrightarrow> constructedOnce (ensureLocalTracking env st)"
  by (simp add: constructedOnce_def constructions_def ensureLocalTracking_eq)

lemma once_ensureRemote: "constructedOnce st \<Longrightarrow> constructedOnce (ensureRemoteTracking env q st)"
  by (simp add: constructedOnce_def constructions_def ensureRemoteTracking_eq)

lemma once_askLocalRepo:
  "constructedOnce st \<Longrightarrow>
   c \<in> {Call_getModifyFilenames, Call_getDeleteFilenames, Call_getAddFilenames} \<Longrightarrow>
   constructedOnce (snd (askLocalRepo g c st))"
  by (auto simp: constructedOnce_def constructions_def askLocalRepo_def split: option.splits)

lemma once_getRemote: "constructedOnce st \<Longrightarrow> constructedOnce (snd (getRemote s st))"
  by (auto simp: constructedOnce_def constructions_def getRemote_def split: option.splits)

lemma once_getChanges: "constructedOnce st \<Longrightarrow> constructedOnce (snd (getChanges env options st))"
  by (cases options)
    (simp_all add: getChanges_def Let_def once_ensureLocal once_ensureRemote once_askLocalRepo
      once_getRemote)

lemma snd_getConflicts:
  "snd (getConflicts env st) =
     snd (getChanges env (Some \<lparr>opt_origin = Some Remote, opt_state = Changed\<rparr>)
       (snd (getChanges env (Some \<lparr>opt_origin = Some Local, opt_state = Add\<rparr>)
         (snd (getChanges env (Some \<lparr>opt_origin = Some Local, opt_state = Changed\<rparr>)
           (ensureLocalTracking env (ensureRemoteTracking env False st)))))))
   \<or> snd (getConflicts env st) =
       snd (getChanges env (Some \<lparr>opt_origin = Some Local, opt_state = Add\<rparr>)
         (snd (getChanges env (Some \<lparr>opt_origin = Some Local, opt_state = Changed\<rparr>)
           (ensureLocalTracking env (ensureRemoteTracking env False st)))))"
  by (simp add: getConflicts_def Let_def split: prod.splits sum.splits)

lemma once_getConflicts: "constructedOnce st \<Longrightarrow> constructedOnce (snd (getConflicts env st))"
  using snd_getConflicts [of env st]
  by (auto intro!: once_getChanges once_ensureLocal once_ensureRemote)

lemma once_perform: "constructedOnce st \<Longrightarrow> constructedOnce (perform env st operation)"
  by (cases operation)
    (simp_all add: once_ensureLocal once_ensureRemote once_getChanges once_getConflicts)

lemma once_foldl: "constructedOnce st \<Longrightarrow> constructedOnce (foldl (perform env) st operations)"
  by (induction operations arbitrary: st) (simp_all add: once_perform)

lemma once_new: "constructedOnce (new_SourceTracking pp dirs)"
  by (simp add: constructedOnce_def constructions_def new_SourceTracking_def)

text \<open>
  Claim C8, as amended. Once a ledger is stored, a call of its ensure method returns in
  its first piece, wherever it is scheduled, with the tracking object as it is: it makes
  no call, so it constructs no ledger and does not change the stored one. Hence awaited
  calls are idempotent, whatever the constructors would now return, and over any
  sequence of awaited calls of the public methods on a new tracking object each of the
  two ledgers is constructed at most once. An awaited call makes calls only when the
  ledger is not yet there: the local one creates the repository and loads its status,
  the remote one gets the instance and then polls exactly when initializeWithQuery is
  true. Nothing is said of a call that starts before the constructing call has stored
  its ledger.
\<close>

theorem ensure_tracking_at_most_once:
  "ensureLocalTracking env' (ensureLocalTracking env st) = ensureLocalTracking env st
   \<and> ensureRemoteTracking env' q' (ensureRemoteTracking env q st) = ensureRemoteTracking env q st
   \<and> calls (ensureLocalTracking env st) =
       calls st @ (if localRepo st = None then [Call_ShadowRepo_create, Call_getStatus] else [])
   \<and> calls (ensureRemoteTracking env q st) =
       calls st @ (if remoteSourceTrackingService st = None
                   then Call_getInstance # (if q then [Call_retrieveUpdates] else []) else [])
   \<and> fst (constructions (foldl (perform env) (new_SourceTracking pp dirs) operations)) \<le> 1
   \<and> snd (constructions (foldl (perform env) (new_SourceTracking pp dirs) operations)) \<le> 1
   \<and> (localRepo st \<noteq> None \<longrightarrow> resume env LocalStart st = (Returned, st))
   \<and> (remoteSourceTrackingService st \<noteq> None \<longrightarrow> resume env (RemoteStart q) st = (Returned, st))
   \<and> fst (awaited env LocalStart st) = Returned
   \<and> fst (awaited env (RemoteStart q) st) = Returned"
proof -
  have "constructedOnce (foldl (perform env) (new_SourceTracking pp dirs) operations)"
    by (rule once_foldl) (rule once_new)
  then show ?thesis
    by (simp add: constructedOnce_def ensureLocalTracking_eq ensureRemoteTracking_eq
        awaited_returns split: if_splits)
qed

theorem ensure_tracking_at_most_once_witness:
  "ensureLocalTracking bothFilesEnv (ensureLocalTracking fooEnv fooTracking) = ensureLocalTracking fooEnv fooTracking
   \<and> localRepo (ensureLocalTracking fooEnv fooTracking) = Some (ShadowRepo_create fooEnv)
   \<and> ensureRemoteTracking barEnv True (ensureRemoteTracking fooEnv False fooTracking)
       = ensureRemoteTracking fooEnv False fooTracking
   \<and> calls (ensureLocalTracking fooEnv fooTracking) = [Call_ShadowRepo_create, Call_getStatus]
   \<and> calls (ensureRemoteTracking fooEnv False fooTracking) = [Call_getInstance]
   \<and> calls (ensureRemoteTracking fooEnv True fooTracking) = [Call_getInstance, Call_retrieveUpdates]
   \<and> constructions (foldl (perform fooEnv) (new_SourceTracking ''/project'' [])
         [EnsureLocalTracking, EnsureRemoteTracking True, EnsureLocalTracking,
          EnsureRemoteTracking False, GetChanges None]) = (1, 1)
   \<and> resume barEnv LocalStart (ensureLocalTracking fooEnv fooTracking)
       = (Returned, ensureLocalTracking fooEnv fooTracking)
   \<and> resume barEnv (RemoteStart True) (ensureRemoteTracking fooEnv False fooTracking)
       = (Returned, ensureRemoteTracking fooEnv False fooTracking)"
  using ensure_tracking_at_most_once [of bothFilesEnv fooEnv fooTracking True False "''/project''" "[]"
      "[EnsureLocalTracking, EnsureRemoteTracking True, EnsureLocalTracking,
          EnsureRemoteTracking False, GetChanges None]"]
    ensure_tracking_at_most_once [of barEnv fooEnv fooTracking True False]
    ensure_tracking_at_most_once [of fooEnv fooEnv fooTracking True True]
    ensure_tracking_at_most_once [of fooEnv barEnv "ensureLocalTracking fooEnv fooTracking" True True]
    ensure_tracking_at_most_once
      [of fooEnv barEnv "ensureRemoteTracking fooEnv False fooTracking" True True]
  by (simp add: fooTracking_def new_SourceTracking_def ensureLocalTracking_eq
      ensureRemoteTracking_eq getChanges_def constructions_def)

text \<open>
  Against C8 as stated: two first calls of ensureLocalTracking that overlap, as under
  \<^verbatim>\<open>Promise.all\<close>, both find the field undefined and both construct; the same holds
  for ensureRemoteTracking. The second call follows the first and constructs a ledger.
\<close>

theorem ensure_tracking_overlap_counterexample:
  "fst (interleave fooEnv [0, 1, 0, 1, 0, 1] ([LocalStart, LocalStart], fooTracking))
     = [Returned, Returned]
   \<and> calls (snd (interleave fooEnv [0, 1, 0, 1, 0, 1] ([LocalStart, LocalStart], fooTracking)))
       = [Call_ShadowRepo_create, Call_ShadowRepo_create, Call_getStatus, Call_getStatus]
   \<and> fst (interleave fooEnv [0, 1, 0, 1] ([RemoteStart False, RemoteStart False], fooTracking))
       = [Returned, Returned]
   \<and> calls (snd (interleave fooEnv [0, 1, 0, 1] ([RemoteStart False, RemoteStart False], fooTracking)))
       = [Call_getInstance, Call_getInstance]"
  by (simp add: fooTracking_def new_SourceTracking_def)

subsection \<open>getKeyFromObject\<close>

lemma getKeyFromObject_Inl:
  "\<not> (truthy (type element) \<and> truthy (name element)) \<Longrightarrow>
   getKeyFromObject env element = Inl (UnableToCompleteKey (type element) (name element))"
  by (auto simp: getKeyFromObject_def truthy_def split: option.splits)

lemma getKeyFromObject_Inr:
  "type element = Some t \<Longrightarrow> name element = Some n \<Longrightarrow> t \<noteq> [] \<Longrightarrow> n \<noteq> [] \<Longrightarrow>
   getKeyFromObject env element = Inr (getMetadataKey env t n)"
  by (simp add: getKeyFromObject_def)

lemma setElements_fails:
  "e \<in> set es \<Longrightarrow> \<not> (truthy (type e) \<and> truthy (name e)) \<Longrightarrow> \<exists>err. setElements env es m = Inl err"
proof (induction es arbitrary: m)
  case Nil
  then show ?case by simp
next
  case (Cons a es)
  show ?case
  proof (cases "getKeyFromObject env a")
    case (Inl err)
    then show ?thesis by simp
  next
    case (Inr key)
    then have "e \<noteq> a"
      using Cons.prems(2) getKeyFromObject_Inl [of e env] by auto
    with Cons Inr show ?thesis by simp
  qed
qed

lemma populateFilePaths_fails:
  assumes "e \<in> set es" and "\<not> (truthy (type e) \<and> truthy (name e))"
  shows "\<exists>err. populateFilePaths env st es = Inl err"
proof -
  from assms(1) have "es \<noteq> []" by auto
  moreover obtain err where "setElements env es [] = Inl err"
    using setElements_fails [OF assms] by blast
  ultimately show ?thesis by (simp add: populateFilePaths_def Let_def)
qed

text \<open>
  Claim C6, as amended. getKeyFromObject raises its error exactly when the type or the
  name of the element is missing or empty, not only when both are; for an element with
  a non-empty type and a non-empty name it returns getMetadataKey of the two. The error
  ends the call that asked for the key: populateFilePaths asks for the key of every
  element and does not catch the error, so a list with one such element fails as a whole.
\<close>

theorem getKeyFromObject_raises_iff:
  "((\<exists>err. getKeyFromObject env element = Inl err)
      \<longleftrightarrow> \<not> (truthy (type element) \<and> truthy (name element)))
   \<and> (\<not> (truthy (type element) \<and> truthy (name element)) \<longrightarrow>
        getKeyFromObject env element = Inl (UnableToCompleteKey (type element) (name element)))
   \<and> (\<forall>t n. type element = Some t \<and> name element = Some n \<and> t \<noteq> [] \<and> n \<noteq> [] \<longrightarrow>
        getKeyFromObject env element = Inr (getMetadataKey env t n))
   \<and> (\<forall>e \<in> set elements. \<not> (truthy (type e) \<and> truthy (name e)) \<longrightarrow>
        (\<exists>err. populateFilePaths env st elements = Inl err))"
proof -
  have "(\<exists>err. getKeyFromObject env element = Inl err)
      \<longleftrightarrow> \<not> (truthy (type element) \<and> truthy (name element))"
    by (auto simp: getKeyFromObject_def truthy_def split: option.splits)
  then show ?thesis
    using getKeyFromObject_Inl [of element env] getKeyFromObject_Inr [of element _ _ env]
      populateFilePaths_fails [of _ elements env st]
    by blast
qed

theorem getKeyFromObject_raises_iff_witness:
  "getKeyFromObject fooEnv fooUpdate = Inr ''ApexClass__Foo''
   \<and> getKeyFromObject fooEnv (fooUpdate\<lparr>type := None\<rparr>) = Inl (UnableToCompleteKey None (Some ''Foo''))
   \<and> populateFilePaths fooEnv fooTracking
         [remoteChange fooUpdate, remoteChange (fooUpdate\<lparr>type := Some []\<rparr>)]
       = Inl (UnableToCompleteKey (Some []) (Some ''Foo''))"
  using getKeyFromObject_raises_iff [of fooEnv fooUpdate "[]" fooTracking]
    getKeyFromObject_raises_iff [of fooEnv "fooUpdate\<lparr>type := None\<rparr>"
      "[remoteChange fooUpdate, remoteChange (fooUpdate\<lparr>type := Some []\<rparr>)]" fooTracking]
  by (simp add: fooUpdate_def fooEnv_def truthy_def remoteChange_def getKeyFromObject_def
      populateFilePaths_def Let_def)

text \<open>
  Against C6 as stated: an element that has a type and lacks only its name raises, and
  in populateFilePaths it takes the element before it, which has a key, down with it.
\<close>

theorem getKeyFromObject_counterexample:
  "type (fooUpdate\<lparr>name := None\<rparr>) = Some ''ApexClass''
   \<and> getKeyFromObject fooEnv (fooUpdate\<lparr>name := None\<rparr>) = Inl (UnableToCompleteKey (Some ''ApexClass'') None)
   \<and> getKeyFromObject fooEnv fooUpdate = Inr ''ApexClass__Foo''
   \<and> populateFilePaths fooEnv fooTracking [remoteChange fooUpdate, remoteChange (fooUpdate\<lparr>name := None\<rparr>)]
       = Inl (UnableToCompleteKey (Some ''ApexClass'') None)"
  by (simp add: fooUpdate_def fooEnv_def getKeyFromObject_def populateFilePaths_def remoteChange_def
      fooTracking_def new_SourceTracking_def Let_def)

subsection \<open>populateFilePaths\<close>

text \<open>
  Claim C3. For a non-empty list of elements, when the component set built from the
  (type, name) pairs of the elements has fewer members than the list has elements,
  populateFilePaths throws an error whose message names every requested element as
  name(type), and returns nothing.
\<close>

theorem populateFilePaths_incomplete_component_set:
  assumes "elements \<noteq> []"
      and "size_of env (new_ComponentSet env (map (\<lambda>element. (type element, name element)) elements))
             < length elements"
  shows "populateFilePaths env st elements =
     Inl (Error (''unable to generate complete component set for '' @
            join '','' (map (\<lambda>element. template (name element) @ ''('' @
                               template (type element) @ '')'') elements)))"
  using assms by (simp add: populateFilePaths_def Let_def)

theorem populateFilePaths_incomplete_component_set_witness:
  "populateFilePaths fooEnv fooTracking [remoteChange fooUpdate, remoteChange fooUpdate] =
     Inl (Error ''unable to generate complete component set for Foo(ApexClass),Foo(ApexClass)'')"
  using populateFilePaths_incomplete_component_set
    [of "[remoteChange fooUpdate, remoteChange fooUpdate]" fooEnv fooTracking]
  by (simp add: fooEnv_def remoteChange_def fooUpdate_def template_def)

subsection \<open>getChanges\<close>

lemma remoteChange_inject: "remoteChange u = remoteChange v \<Longrightarrow> u = v"
  by (cases u, cases v) (simp add: remoteChange_def)

lemma remote_changes_filtered:
  assumes "remoteSourceTrackingService (ensureRemoteTracking env False st) = Some service"
  shows "fst (getChanges env (Some \<lparr>opt_origin = Some Remote, opt_state = s\<rparr>) st) =
     Inr (map remoteChange
           (filter (\<lambda>change. deleted change = Some (s = Delete)) (retrieveUpdates service)))"
  using assms by (simp add: getChanges_def getRemote_def)

text \<open>
  Claim C5. For origin remote, getChanges returns the updates the remote ledger
  retrieves whose deleted flag matches the requested state, each copied with origin
  remote. The updates of the ledger carry their deleted flag: an update is in the
  result for state delete exactly when its flag is set and in the result for state
  changed otherwise, so each update is in exactly one of the two results.
\<close>

theorem getChanges_remote_by_deleted_flag:
  assumes "remoteSourceTrackingService (ensureRemoteTracking env False st) = Some service"
      and "\<forall>u \<in> set (retrieveUpdates service). deleted u \<noteq> None"
  shows "\<exists>deletes changes.
      fst (getChanges env (Some \<lparr>opt_origin = Some Remote, opt_state = Delete\<rparr>) st) = Inr deletes
    \<and> fst (getChanges env (Some \<lparr>opt_origin = Some Remote, opt_state = Changed\<rparr>) st) = Inr changes
    \<and> deletes = map remoteChange (filter (\<lambda>change. deleted change = Some True) (retrieveUpdates service))
    \<and> changes = map remoteChange (filter (\<lambda>change. deleted change \<noteq> Some True) (retrieveUpdates service))
    \<and> (\<forall>x \<in> set deletes \<union> set changes. origin x = Some Remote)
    \<and> (\<forall>u \<in> set (retrieveUpdates service).
          (remoteChange u \<in> set deletes \<longleftrightarrow> deleted u = Some True)
        \<and> (remoteChange u \<in> set changes \<longleftrightarrow> deleted u \<noteq> Some True)
        \<and> (remoteChange u \<in> set deletes) \<noteq> (remoteChange u \<in> set changes))"
proof -
  let ?us = "retrieveUpdates service"
  let ?ds = "map remoteChange (filter (\<lambda>change. deleted change = Some True) ?us)"
  let ?cs = "map remoteChange (filter (\<lambda>change. deleted change \<noteq> Some True) ?us)"
  have flag: "deleted u = Some False \<longleftrightarrow> deleted u \<noteq> Some True" if "u \<in> set ?us" for u
    using assms(2) that by (cases "deleted u") auto
  have same: "filter (\<lambda>change. deleted change = Some False) ?us
      = filter (\<lambda>change. deleted change \<noteq> Some True) ?us"
    by (rule filter_cong) (simp_all add: flag)
  have d: "remoteChange u \<in> set ?ds \<longleftrightarrow> deleted u = Some True" if "u \<in> set ?us" for u
    using that by (auto dest!: remoteChange_inject)
  have c: "remoteChange u \<in> set ?cs \<longleftrightarrow> deleted u \<noteq> Some True" if "u \<in> set ?us" for u
    using that by (auto dest!: remoteChange_inject)
  have each: "(remoteChange u \<in> set ?ds \<longleftrightarrow> deleted u = Some True)
        \<and> (remoteChange u \<in> set ?cs \<longleftrightarrow> deleted u \<noteq> Some True)
        \<and> (remoteChange u \<in> set ?ds) \<noteq> (remoteChange u \<in> set ?cs)"
    if "u \<in> set ?us" for u
    by (simp only: d [OF that] c [OF that]) simp
  have remote: "\<forall>x \<in> set ?ds \<union> set ?cs. origin x = Some Remote"
    by (auto simp: remoteChange_def)
  have "fst (getChanges env (Some \<lparr>opt_origin = Some Remote, opt_state = Delete\<rparr>) st) = Inr ?ds"
    using remote_changes_filtered [OF assms(1), of Delete] by simp
  moreover have "fst (getChanges env (Some \<lparr>opt_origin = Some Remote, opt_state = Changed\<rparr>) st) = Inr ?cs"
    using remote_changes_filtered [OF assms(1), of Changed] by (simp add: same)
  ultimately show ?thesis
    using each remote by blast
qed

theorem getChanges_remote_by_deleted_flag_witness:
  "retrieveUpdates (getInstance bothStatesEnv) = [fooUpdate, barDeleted]
   \<and> deleted fooUpdate = Some False \<and> deleted barDeleted = Some True
   \<and> fst (getChanges bothStatesEnv (Some \<lparr>opt_origin = Some Remote, opt_state = Delete\<rparr>) fooTracking)
       = Inr [remoteChange barDeleted]
   \<and> fst (getChanges bothStatesEnv (Some \<lparr>opt_origin = Some Remote, opt_state = Changed\<rparr>) fooTracking)
       = Inr [remoteChange fooUpdate]"
proof -
  have service: "remoteSourceTrackingService (ensureRemoteTracking bothStatesEnv False fooTracking)
      = Some (getInstance bothStatesEnv)"
    by (simp add: ensureRemoteTracking_eq fooTracking_def new_SourceTracking_def)
  have updates: "retrieveUpdates (getInstance bothStatesEnv) = [fooUpdate, barDeleted]"
    by (simp add: bothStatesEnv_def)
  have flags: "deleted fooUpdate = Some False" "deleted barDeleted = Some True"
    by (simp_all add: fooUpdate_def barDeleted_def)
  have carried: "\<forall>u \<in> set (retrieveUpdates (getInstance bothStatesEnv)). deleted u \<noteq> None"
    unfolding updates using flags by auto
  show ?thesis
    using getChanges_remote_by_deleted_flag [OF service carried]
    by (auto simp: updates flags)
qed

text \<open>
  Claim C9, as amended. getChanges returns the empty list when the options are
  undefined, when they have no origin, and for origin local with state unchanged or
  moved. For origin remote every state returns ledger data: each state other than
  delete (add, changed, unchanged, moved) returns the retrieved updates whose deleted
  flag is false.
\<close>

theorem getChanges_unrecognised_options:
  "fst (getChanges env None st) = Inr []
   \<and> (opt_origin opts = None \<longrightarrow> fst (getChanges env (Some opts) st) = Inr [])
   \<and> (opt_origin opts = Some Local \<and> (opt_state opts = Unchanged \<or> opt_state opts = Moved) \<longrightarrow>
        fst (getChanges env (Some opts) st) = Inr [])
   \<and> (opt_origin opts = Some Remote \<and> opt_state opts \<noteq> Delete
        \<and> remoteSourceTrackingService (ensureRemoteTracking env False st) = Some service \<longrightarrow>
        fst (getChanges env (Some opts) st) =
          Inr (map remoteChange
                (filter (\<lambda>change. deleted change = Some False) (retrieveUpdates service))))"
  by (auto simp: getChanges_def getRemote_def)

theorem getChanges_unrecognised_options_witness:
  "fst (getChanges fooEnv None fooTracking) = Inr []
   \<and> fst (getChanges fooEnv (Some \<lparr>opt_origin = None, opt_state = Changed\<rparr>) fooTracking) = Inr []
   \<and> fst (getChanges fooEnv (Some \<lparr>opt_origin = Some Local, opt_state = Moved\<rparr>) fooTracking) = Inr []
   \<and> fst (getChanges fooEnv (Some \<lparr>opt_origin = Some Remote, opt_state = Unchanged\<rparr>) fooTracking)
       = Inr [remoteChange fooUpdate]"
  using getChanges_unrecognised_options
      [of fooEnv fooTracking "\<lparr>opt_origin = None, opt_state = Changed\<rparr>" "getInstance fooEnv"]
    getChanges_unrecognised_options
      [of fooEnv fooTracking "\<lparr>opt_origin = Some Local, opt_state = Moved\<rparr>" "getInstance fooEnv"]
    getChanges_unrecognised_options
      [of fooEnv fooTracking "\<lparr>opt_origin = Some Remote, opt_state = Unchanged\<rparr>" "getInstance fooEnv"]
  by (simp add: ensureRemoteTracking_eq fooTracking_def new_SourceTracking_def fooEnv_def
      fooUpdate_def)

text \<open>
  Against C9 as stated: origin remote with state add, which is not a recognised
  combination, returns the changed remote update.
\<close>

theorem getChanges_remote_add_counterexample:
  "fst (getChanges fooEnv (Some \<lparr>opt_origin = Some Remote, opt_state = Add\<rparr>) fooTracking)
     = Inr [remoteChange fooUpdate]"
  by (simp add: getChanges_def getRemote_def ensureRemoteTracking_eq fooTracking_def
      new_SourceTracking_def fooEnv_def fooUpdate_def)

subsection \<open>getConflicts\<close>

lemma populateFilePaths_calls [simp]:
  "populateFilePaths env (st\<lparr>calls := c\<rparr>) = populateFilePaths env st"
  "populateFilePaths env (ensureLocalTracking env st) = populateFilePaths env st"
  "populateFilePaths env (ensureRemoteTracking env q st) = populateFilePaths env st"
  by (rule ext, simp add: populateFilePaths_def Let_def)+

lemma foldl_nested: "foldl (\<lambda>acc c. foldl g acc (h c)) a cs = foldl g a (concat (map h cs))"
  by (induction cs arbitrary: a) simp_all

lemma addConflict_foldl:
  "\<forall>x\<in>set s. \<exists>k<n. fst x = New k \<Longrightarrow>
   map snd (fst (foldl (addConflict idx) (s, n) fs)) = map snd s @ List.map_filter (map_of idx) fs"
proof (induction fs arbitrary: s n)
  case Nil
  then show ?case by simp
next
  case (Cons f fs)
  show ?case
  proof (cases "map_of idx f")
    case None
    with Cons show ?thesis by (simp add: addConflict_def)
  next
    case (Some c)
    from Cons.prems have fresh: "New n \<notin> fst ` set s" by fastforce
    have inv: "\<forall>x\<in>set (s @ [(New n, c)]). \<exists>k<Suc n. fst x = New k"
      using Cons.prems less_Suc_eq by auto
    show ?thesis
      using Cons.IH [OF inv] Some fresh by (simp add: addConflict_def Set_add_def)
  qed
qed

lemma findConflicts_values:
  "map snd (fst (findConflicts idx localChanges)) =
     List.map_filter (map_of idx) (concat (map filenamesOf localChanges))"
  unfolding findConflicts_def foldl_nested
  using addConflict_foldl [of "[]" 0 idx] by simp

lemma filenamesOf_localChange: "concat (map (filenamesOf \<circ> localChange) fs) = fs"
  by (induction fs) (simp_all add: filenamesOf_def localChange_def)

lemma getConflicts_unfold:
  assumes "localRepo (ensureLocalTracking env st) = Some repo"
      and "remoteSourceTrackingService (ensureRemoteTracking env False st) = Some service"
  shows "fst (getConflicts env st) =
     (case populateFilePaths env st
             (map remoteChange (filter (\<lambda>change. deleted change = Some False) (retrieveUpdates service))) of
        Inl e \<Rightarrow> Inl e
      | Inr remoteChanges \<Rightarrow>
          Inr (List.map_filter (map_of (indexByFilename remoteChanges))
                 (getModifyFilenames repo @ getAddFilenames repo)))"
proof -
  let ?st1 = "ensureLocalTracking env (ensureRemoteTracking env False st)"
  have l: "localRepo ?st1 = Some repo"
    using assms(1) by (simp add: ensureLocalTracking_eq ensureRemoteTracking_eq split: if_splits)
  have r: "remoteSourceTrackingService ?st1 = Some service"
    using assms(2) by simp
  show ?thesis
    using l r
    by (simp add: getConflicts_def getChanges_def askLocalRepo_def getRemote_def Let_def
        ensureLocal_noop ensureRemote_noop findConflicts_values filenamesOf_localChange
        split: sum.splits)
qed

lemma getConflicts_calls:
  "calls (snd (getConflicts env (new_SourceTracking pp dirs))) =
     [Call_getInstance, Call_ShadowRepo_create, Call_getStatus,
      Call_getModifyFilenames, Call_getAddFilenames, Call_retrieveUpdates]"
  by (simp add: getConflicts_def getChanges_def askLocalRepo_def getRemote_def Let_def
      new_SourceTracking_def ensureLocalTracking_eq ensureRemoteTracking_eq
      split: sum.splits)

lemma foo_populateFilePaths:
  "populateFilePaths (fooEnv\<lparr>ShadowRepo_create := repo\<rparr>) st [remoteChange fooUpdate]
     = Inr [fooConflict]"
  by (simp add: populateFilePaths_def fooEnv_def remoteChange_def fooUpdate_def fooConflict_def
      getKeyFromObject_def getKeyFromStrings_def setFilenames_def fooComponent_def spread_def
      truthyStrings_def truthy_def Let_def)

lemma foo_index:
  "indexByFilename [fooConflict] =
     [(''classes/Foo.cls-meta.xml'', fooConflict), (''classes/Foo.cls'', fooConflict)]"
  by (simp add: indexByFilename_def filenamesOf_def fooConflict_def)

lemma foo_ledgers:
  "localRepo (ensureLocalTracking (fooEnv\<lparr>ShadowRepo_create := repo\<rparr>) fooTracking) = Some repo"
  "remoteSourceTrackingService
     (ensureRemoteTracking (fooEnv\<lparr>ShadowRepo_create := repo\<rparr>) False fooTracking)
     = Some \<lparr>retrieveUpdates = [fooUpdate]\<rparr>"
  "deleted fooUpdate = Some False"
  by (simp_all add: ensureLocalTracking_eq ensureRemoteTracking_eq fooTracking_def
      new_SourceTracking_def fooEnv_def fooUpdate_def)

lemma foo_getConflicts_any:
  "fst (getConflicts (fooEnv\<lparr>ShadowRepo_create := repo\<rparr>) fooTracking) =
     Inr (List.map_filter
            (map_of [(''classes/Foo.cls-meta.xml'', fooConflict), (''classes/Foo.cls'', fooConflict)])
            (getModifyFilenames repo @ getAddFilenames repo))"
  by (simp add: getConflicts_unfold [OF foo_ledgers(1,2)] foo_ledgers(3) foo_populateFilePaths
      foo_index)

lemma fooEnv_repo:
  "fooEnv = fooEnv\<lparr>ShadowRepo_create :=
     \<lparr>getModifyFilenames = [], getDeleteFilenames = [], getAddFilenames = [''classes/Foo.cls'']\<rparr>\<rparr>"
  by (simp add: fooEnv_def)

lemma foo_getConflicts: "fst (getConflicts fooEnv fooTracking) = Inr [fooConflict]"
  by (subst fooEnv_repo) (simp add: foo_getConflicts_any)

lemma index_inner_keys:
  "fst ` set (foldl (\<lambda>m filename. AList.update filename change m) m fs) = fst ` set m \<union> set fs"
  by (induction fs arbitrary: m) (auto simp: dom_update)

lemma index_outer_keys:
  "fst ` set (foldl (\<lambda>fileNameIndex change.
       foldl (\<lambda>m filename. AList.update filename change m) fileNameIndex (filenamesOf change)) m rs)
   = fst ` set m \<union> (\<Union>change\<in>set rs. set (filenamesOf change))"
  by (induction rs arbitrary: m) (auto simp: index_inner_keys)

lemma index_keys:
  "fst ` set (indexByFilename remoteChanges) = (\<Union>change\<in>set remoteChanges. set (filenamesOf change))"
  by (simp add: indexByFilename_def index_outer_keys)

lemma set_update_subset: "set (AList.update k v m) \<subseteq> insert (k, v) (set m)"
  by (induction m) auto

lemma index_inner_sound:
  "\<forall>(f, c)\<in>set m. c \<in> S \<and> f \<in> set (filenamesOf c) \<Longrightarrow> change \<in> S \<Longrightarrow>
   set fs \<subseteq> set (filenamesOf change) \<Longrightarrow>
   \<forall>(f, c)\<in>set (foldl (\<lambda>m filename. AList.update filename change m) m fs).
      c \<in> S \<and> f \<in> set (filenamesOf c)"
proof (induction fs arbitrary: m)
  case Nil
  then show ?case by simp
next
  case (Cons a fs)
  have "\<forall>(f, c)\<in>set (AList.update a change m). c \<in> S \<and> f \<in> set (filenamesOf c)"
    using Cons.prems set_update_subset [of a change m] by auto
  then show ?case
    using Cons.IH [of "AList.update a change m"] Cons.prems by simp
qed

lemma index_outer_sound:
  "\<forall>(f, c)\<in>set m. c \<in> S \<and> f \<in> set (filenamesOf c) \<Longrightarrow> set rs \<subseteq> S \<Longrightarrow>
   \<forall>(f, c)\<in>set (foldl (\<lambda>fileNameIndex change.
       foldl (\<lambda>m filename. AList.update filename change m) fileNameIndex (filenamesOf change)) m rs).
      c \<in> S \<and> f \<in> set (filenamesOf c)"
proof (induction rs arbitrary: m)
  case Nil
  then show ?case by simp
next
  case (Cons r rs)
  have "\<forall>(f, c)\<in>set (foldl (\<lambda>m filename. AList.update filename r m) m (filenamesOf r)).
      c \<in> S \<and> f \<in> set (filenamesOf c)"
    using index_inner_sound [of m S r "filenamesOf r"] Cons.prems by simp
  then show ?case
    using Cons.IH Cons.prems by simp
qed

lemma index_sound:
  assumes "map_of (indexByFilename remoteChanges) f = Some c"
  shows "c \<in> set remoteChanges \<and> f \<in> set (filenamesOf c)"
proof -
  have "(f, c) \<in> set (indexByFilename remoteChanges)"
    using assms by (rule map_of_SomeD)
  then show ?thesis
    using index_outer_sound [of "[]" "set remoteChanges" remoteChanges]
    by (auto simp: indexByFilename_def)
qed

lemma map_filter_none:
  "set fs \<inter> fst ` set idx = {} \<Longrightarrow> List.map_filter (map_of idx) fs = []"
  by (induction fs) (auto simp: map_of_eq_None_iff split: option.splits)

lemma map_filter_single:
  assumes "filter (\<lambda>f. f \<in> fst ` set idx) fs = [f]"
  shows "\<exists>c. map_of idx f = Some c \<and> List.map_filter (map_of idx) fs = [c]"
proof -
  have "f \<in> set (filter (\<lambda>f. f \<in> fst ` set idx) fs)"
    using assms by simp
  then have "f \<in> fst ` set idx" by simp
  then obtain c where c: "map_of idx f = Some c"
    using map_of_eq_None_iff [of idx f] by (cases "map_of idx f") auto
  have "(\<lambda>x. map_of idx x \<noteq> None) = (\<lambda>f. f \<in> fst ` set idx)"
    by (simp add: map_of_eq_None_iff)
  then have "List.map_filter (map_of idx) fs = [c]"
    using assms c by (simp add: List.map_filter_def)
  with c show ?thesis by blast
qed

text \<open>
  Claim C2. Let the ledgers in use report their changes and let populateFilePaths
  resolve the remote changed updates to remoteChanges. When no filename of a local
  changed or added result is a filename of a resolved remote change, getConflicts returns
  the empty list. When exactly one filename of the local changed and added results is a
  filename of a resolved remote change, getConflicts returns exactly one entry: a resolved
  remote change that has this filename among its filenames, however many other filenames
  it has. In the Foo scenario the single entry has name Foo and type ApexClass.
\<close>

theorem getConflicts_disjoint_or_single:
  assumes "localRepo (ensureLocalTracking env st) = Some repo"
      and "remoteSourceTrackingService (ensureRemoteTracking env False st) = Some service"
      and "populateFilePaths env st
             (map remoteChange (filter (\<lambda>change. deleted change = Some False) (retrieveUpdates service)))
           = Inr remoteChanges"
  shows "(set (getModifyFilenames repo @ getAddFilenames repo)
            \<inter> (\<Union>change\<in>set remoteChanges. set (filenamesOf change)) = {}
          \<longrightarrow> fst (getConflicts env st) = Inr [])
       \<and> (filter (\<lambda>f. f \<in> (\<Union>change\<in>set remoteChanges. set (filenamesOf change)))
            (getModifyFilenames repo @ getAddFilenames repo) = [filename]
          \<longrightarrow> (\<exists>change \<in> set remoteChanges. filename \<in> set (filenamesOf change)
                 \<and> fst (getConflicts env st) = Inr [change]))
       \<and> fst (getConflicts fooEnv fooTracking) = Inr [fooConflict]
       \<and> name fooConflict = Some ''Foo'' \<and> type fooConflict = Some ''ApexClass''"
proof -
  let ?idx = "indexByFilename remoteChanges"
  let ?fs = "getModifyFilenames repo @ getAddFilenames repo"
  have res: "fst (getConflicts env st) = Inr (List.map_filter (map_of ?idx) ?fs)"
    using getConflicts_unfold [OF assms(1,2)] assms(3) by simp
  have "fst (getConflicts env st) = Inr []"
    if "set ?fs \<inter> (\<Union>change\<in>set remoteChanges. set (filenamesOf change)) = {}"
  proof -
    have "set ?fs \<inter> fst ` set ?idx = {}"
      using that by (simp only: index_keys)
    then show ?thesis
      using res map_filter_none [of ?fs ?idx] by simp
  qed
  moreover have "\<exists>change \<in> set remoteChanges. filename \<in> set (filenamesOf change)
                 \<and> fst (getConflicts env st) = Inr [change]"
    if "filter (\<lambda>f. f \<in> (\<Union>change\<in>set remoteChanges. set (filenamesOf change))) ?fs = [filename]"
  proof -
    have "filter (\<lambda>f. f \<in> fst ` set ?idx) ?fs = [filename]"
      using that by (simp only: index_keys)
    then obtain c where "map_of ?idx filename = Some c" "List.map_filter (map_of ?idx) ?fs = [c]"
      using map_filter_single [of ?idx ?fs filename] by blast
    then show ?thesis
      using res index_sound [of remoteChanges filename c] by auto
  qed
  ultimately show ?thesis
    using foo_getConflicts by (simp add: fooConflict_def)
qed

theorem getConflicts_disjoint_or_single_witness:
  "getAddFilenames (ShadowRepo_create fooEnv) = [''classes/Foo.cls'']
   \<and> filenamesOf fooConflict = [''classes/Foo.cls-meta.xml'', ''classes/Foo.cls'']
   \<and> fst (getConflicts fooEnv fooTracking) = Inr [fooConflict]
   \<and> getAddFilenames (ShadowRepo_create barEnv) = [''classes/Bar.cls'']
   \<and> fst (getConflicts barEnv fooTracking) = Inr []"
proof -
  let ?foo = "\<lparr>getModifyFilenames = [], getDeleteFilenames = [], getAddFilenames = [''classes/Foo.cls'']\<rparr>"
  let ?bar = "\<lparr>getModifyFilenames = [], getDeleteFilenames = [], getAddFilenames = [''classes/Bar.cls'']\<rparr>"
  have fs: "filenamesOf fooConflict = [''classes/Foo.cls-meta.xml'', ''classes/Foo.cls'']"
    by (simp add: filenamesOf_def fooConflict_def)
  have "fst (getConflicts (fooEnv\<lparr>ShadowRepo_create := ?foo\<rparr>) fooTracking) = Inr [fooConflict]"
    using getConflicts_disjoint_or_single
      [OF foo_ledgers(1,2), of ?foo "[fooConflict]" "''classes/Foo.cls''"]
    by (simp add: foo_ledgers(3) foo_populateFilePaths fs)
  moreover have "fst (getConflicts (fooEnv\<lparr>ShadowRepo_create := ?bar\<rparr>) fooTracking) = Inr []"
    using getConflicts_disjoint_or_single
      [OF foo_ledgers(1,2), of ?bar "[fooConflict]"]
    by (simp add: foo_ledgers(3) foo_populateFilePaths fs)
  ultimately show ?thesis
    using fs by (simp add: barEnv_def fooEnv_repo [symmetric]) (simp add: fooEnv_def)
qed

text \<open>
  Claim C1 says that the returned list never holds two structurally equal conflict
  records. The code adds a new object literal to the Set for every matching local
  filename, and a Set compares objects by identity: when both files of Foo are modified
  locally, the returned list holds the conflict record of Foo twice.
\<close>

theorem getConflicts_keeps_equal_copies:
  "getModifyFilenames (ShadowRepo_create bothFilesEnv) = [''classes/Foo.cls'', ''classes/Foo.cls-meta.xml'']
   \<and> fst (getConflicts bothFilesEnv fooTracking) = Inr [fooConflict, fooConflict]
   \<and> \<not> distinct [fooConflict, fooConflict]"
  by (simp add: bothFilesEnv_def foo_getConflicts_any)

subsection \<open>The push command\<close>

text \<open>
  Claim C4, as amended. When forceoverwrite is not set and getConflicts returns a
  non-empty list, run writes the conflict table and throws before any deploy. What it
  throws is a plain \<^verbatim>\<open>Error\<close> with the message "conflicts detected": its name is
  "Error" and it carries no conflicts array.
\<close>

theorem run_refuses_on_conflicts:
  assumes "\<not> forceoverwrite fl"
      and "fst (getConflicts env (new_SourceTracking pp dirs)) = Inr conflicts"
      and "conflicts \<noteq> []"
  shows "\<exists>e. fst (run env fl pp dirs deployResult) = Inl e
           \<and> e = Error ''conflicts detected''
           \<and> error_name e = ''Error'' \<and> error_conflicts e = None
           \<and> Call_deployLocalChanges \<notin> set (calls (snd (run env fl pp dirs deployResult)))
           \<and> last (calls (snd (run env fl pp dirs deployResult))) = Call_writeConflictTable"
proof -
  obtain t where g: "getConflicts env (new_SourceTracking pp dirs) = (Inr conflicts, t)"
    using assms(2) by (cases "getConflicts env (new_SourceTracking pp dirs)") simp
  have c: "calls t = [Call_getInstance, Call_ShadowRepo_create, Call_getStatus,
      Call_getModifyFilenames, Call_getAddFilenames, Call_retrieveUpdates]"
    using getConflicts_calls [of env pp dirs] g by simp
  show ?thesis
    using assms(1,3) g c by (simp add: run_def)
qed

theorem run_refuses_on_conflicts_witness:
  "fst (run fooEnv \<lparr>forceoverwrite = False, json = False\<rparr> ''/project'' [\<lparr>path = ''force-app''\<rparr>] ([] :: string list))
     = Inl (Error ''conflicts detected'')
   \<and> Call_deployLocalChanges \<notin> set (calls (snd
       (run fooEnv \<lparr>forceoverwrite = False, json = False\<rparr> ''/project'' [\<lparr>path = ''force-app''\<rparr>] ([] :: string list))))"
  using run_refuses_on_conflicts [of "\<lparr>forceoverwrite = False, json = False\<rparr>" fooEnv
      "''/project''" "[\<lparr>path = ''force-app''\<rparr>]" "[fooConflict]" "[] :: string list"]
    foo_getConflicts
  by (simp add: fooTracking_def)

text \<open>
  Against C4 as stated: in the Foo scenario the command throws an error whose name is
  not "conflict" and which has no conflicts, although getConflicts returned one.
\<close>

theorem run_counterexample:
  "fst (getConflicts fooEnv fooTracking) = Inr [fooConflict]
   \<and> fst (run fooEnv \<lparr>forceoverwrite = False, json = False\<rparr> ''/project''
            [\<lparr>path = ''force-app''\<rparr>] ([] :: string list))
       = Inl (Error ''conflicts detected'')
   \<and> error_name (Error ''conflicts detected'') \<noteq> ''conflict''
   \<and> error_conflicts (Error ''conflicts detected'') = None"
proof -
  obtain t where "getConflicts fooEnv (new_SourceTracking ''/project'' [\<lparr>path = ''force-app''\<rparr>])
      = (Inr [fooConflict], t)"
    using foo_getConflicts
    by (cases "getConflicts fooEnv (new_SourceTracking ''/project'' [\<lparr>path = ''force-app''\<rparr>])")
      (simp add: fooTracking_def)
  then show ?thesis
    using foo_getConflicts by (simp add: run_def)
qed

subsection \<open>populateTypesAndNames\<close>

lemma no_components:
  "componentsOf env f = [] \<Longrightarrow> \<forall>x\<in>set elements. filenames (snd x) = Some [f] \<Longrightarrow>
   concat (map (componentsOf env) (concat (map (\<lambda>element. filenamesOf (snd element)) elements))) = []"
  by (induction elements) (simp_all add: filenamesOf_def)

lemma same_filename_map:
  "\<forall>x\<in>set elements. filenames (snd x) = Some [f] \<Longrightarrow>
   foldl (setByFilename env st) [(ensureRelative env st f, x0)] elements
     = [(ensureRelative env st f, last (x0 # elements))]"
  by (induction elements arbitrary: x0) (simp_all add: setByFilename_def filenamesOf_def)

text \<open>
  Claim C7. Given ChangeResults without type and name whose single filename, the same
  for all of them, the resolver cannot classify (it throws, or it finds no component),
  populateTypesAndNames returns the empty list when excludeUnresolvable is true and
  returns exactly one ChangeResult, still without type and name, when it is false: the
  last one stored under the filename, which for a single ChangeResult is the one given.
  The exception of the resolver is caught: the call returns in both cases.
\<close>

theorem populateTypesAndNames_unresolvable:
  assumes "elements \<noteq> []"
      and "\<forall>x\<in>set elements. filenames (snd x) = Some [f] \<and> type (snd x) = None \<and> name (snd x) = None"
      and "getComponentsFromPath env f = Inl e \<or> getComponentsFromPath env f = Inr []"
  shows "populateTypesAndNames env st elements True = []
       \<and> populateTypesAndNames env st elements False = [last elements]
       \<and> type (snd (last elements)) = None \<and> name (snd (last elements)) = None"
proof -
  have none: "componentsOf env f = []"
    using assms(3) by (auto simp: componentsOf_def)
  obtain x xs where elements: "elements = x # xs"
    using assms(1) by (cases elements) auto
  have same: "\<forall>y\<in>set elements. filenames (snd y) = Some [f]"
    using assms(2) by simp
  have "foldl (setByFilename env st) [] elements
      = foldl (setByFilename env st) [(ensureRelative env st f, x)] xs"
    using same by (simp add: elements setByFilename_def filenamesOf_def)
  also have "\<dots> = [(ensureRelative env st f, last elements)]"
    using same same_filename_map [of xs f env st x] by (simp add: elements)
  finally have m: "foldl (setByFilename env st) [] elements
      = [(ensureRelative env st f, last elements)]" .
  have l: "type (snd (last elements)) = None \<and> name (snd (last elements)) = None"
    using assms(1,2) last_in_set by blast
  show ?thesis
    using assms(1) l
    by (simp add: populateTypesAndNames_def no_components [OF none same] m new_Set_def
        Set_add_def truthy_def)
qed

theorem populateTypesAndNames_unresolvable_witness:
  "populateTypesAndNames fooEnv fooTracking [(Arg 0, localChange ''classes/Bar.cls'')] True = []
   \<and> populateTypesAndNames fooEnv fooTracking [(Arg 0, localChange ''classes/Bar.cls'')] False
       = [(Arg 0, localChange ''classes/Bar.cls'')]
   \<and> type (localChange ''classes/Bar.cls'') = None \<and> name (localChange ''classes/Bar.cls'') = None"
  using populateTypesAndNames_unresolvable
    [of "[(Arg 0, localChange ''classes/Bar.cls'')]" "''classes/Bar.cls''" fooEnv
        "Error ''could not resolve''" fooTracking]
  by (simp add: localChange_def fooEnv_def)

lemma hasFilenames_update:
  "hasFilenames m \<Longrightarrow> filenamesOf (snd x) \<noteq> [] \<Longrightarrow> hasFilenames (AList.update k x m)"
  using set_update_subset [of k x m] by (auto simp: hasFilenames_def)

lemma hasFilenames_inner:
  "hasFilenames m \<Longrightarrow> (fs \<noteq> [] \<longrightarrow> filenamesOf (snd element) \<noteq> []) \<Longrightarrow>
   hasFilenames (foldl (\<lambda>m filename. AList.update (g filename) element m) m fs)"
  by (induction fs arbitrary: m) (simp_all add: hasFilenames_update)

lemma hasFilenames_setByFilename:
  "hasFilenames m \<Longrightarrow> hasFilenames (setByFilename env st m element)"
  unfolding setByFilename_def by (rule hasFilenames_inner) simp_all

lemma hasFilenames_elementMap:
  "hasFilenames m \<Longrightarrow> hasFilenames (foldl (setByFilename env st) m elements)"
  by (induction elements arbitrary: m) (simp_all add: hasFilenames_setByFilename)

lemma hasFilenames_setTypeAndName:
  assumes "hasFilenames (fst acc)"
  shows "hasFilenames (fst (setTypeAndName c acc filename))"
proof (cases filename)
  case None
  with assms show ?thesis by (simp add: setTypeAndName_def)
next
  case (Some f)
  show ?thesis
  proof (cases "map_of (fst acc) f")
    case None
    with Some assms show ?thesis by (simp add: setTypeAndName_def)
  next
    case (Some element)
    then have "(f, element) \<in> set (fst acc)" by (rule map_of_SomeD)
    then have "filenamesOf (snd element) \<noteq> []"
      using assms by (auto simp: hasFilenames_def)
    then show ?thesis
      using assms Some \<open>filename = Some f\<close>
      by (auto simp: setTypeAndName_def filenamesOf_def intro!: hasFilenames_update)
  qed
qed

lemma hasFilenames_foldl_setTypeAndName:
  "hasFilenames (fst acc) \<Longrightarrow> hasFilenames (fst (foldl (setTypeAndName c) acc fs))"
  by (induction fs arbitrary: acc) (simp_all add: hasFilenames_setTypeAndName)

lemma hasFilenames_setTypesAndNames_step:
  "hasFilenames (fst acc) \<Longrightarrow> hasFilenames (fst (setTypesAndNames acc c))"
  unfolding setTypesAndNames_def
  using hasFilenames_foldl_setTypeAndName [of acc c "xml c # map Some (walkContent c)"]
  by (simp del: foldl.simps)

lemma hasFilenames_setTypesAndNames:
  "hasFilenames (fst acc) \<Longrightarrow> hasFilenames (fst (foldl setTypesAndNames acc cs))"
  by (induction cs arbitrary: acc) (simp_all add: hasFilenames_setTypesAndNames_step)

lemma set_Set_add: "set (Set_add x s) \<subseteq> insert x (set s)"
  by (auto simp: Set_add_def)

lemma set_new_Set_aux: "set (foldl (\<lambda>s x. Set_add x s) s xs) \<subseteq> set s \<union> set xs"
proof (induction xs arbitrary: s)
  case Nil
  then show ?case by simp
next
  case (Cons x xs)
  show ?case
    using Cons.IH [of "Set_add x s"] set_Set_add [of x s] by auto
qed

lemma set_new_Set: "set (new_Set xs) \<subseteq> set xs"
  using set_new_Set_aux [of "[]" xs] by (simp add: new_Set_def)

lemma populateTypesAndNames_filenames:
  assumes "x \<in> set (populateTypesAndNames env st elements excludeUnresolvable)"
  shows "filenamesOf (snd x) \<noteq> []"
proof -
  let ?m = "fst (foldl setTypesAndNames (foldl (setByFilename env st) [] elements, 0)
             (concat (map (componentsOf env) (concat (map (\<lambda>element. filenamesOf (snd element)) elements)))))"
  have "hasFilenames []"
    by (simp add: hasFilenames_def)
  then have "hasFilenames (foldl (setByFilename env st) [] elements)"
    by (rule hasFilenames_elementMap)
  then have "hasFilenames ?m"
    by (intro hasFilenames_setTypesAndNames) simp
  moreover have "x \<in> set (new_Set (map snd ?m))"
    using assms by (auto simp: populateTypesAndNames_def Let_def split: if_splits)
  then have "x \<in> snd ` set ?m"
    using set_new_Set [of "map snd ?m"] by auto
  ultimately show ?thesis
    by (auto simp: hasFilenames_def)
qed

text \<open>
  Claim C10. Whatever the flag excludeUnresolvable, no ChangeResult without filenames
  (undefined, or the empty list) is in the output of populateTypesAndNames: every
  value of the filename-keyed map was stored under one of its own filenames, and the
  copies made when type and name are set keep the filenames.
\<close>

theorem populateTypesAndNames_drops_without_filenames:
  assumes "filenames cr = None \<or> filenames cr = Some []"
  shows "cr \<notin> snd ` set (populateTypesAndNames env st elements excludeUnresolvable)"
proof
  assume "cr \<in> snd ` set (populateTypesAndNames env st elements excludeUnresolvable)"
  then obtain x where "x \<in> set (populateTypesAndNames env st elements excludeUnresolvable)"
      and "snd x = cr"
    by auto
  then have "filenamesOf cr \<noteq> []"
    using populateTypesAndNames_filenames by blast
  with assms show False
    by (auto simp: filenamesOf_def)
qed

theorem populateTypesAndNames_drops_without_filenames_witness:
  "populateTypesAndNames fooEnv fooTracking
     [(Arg 0, (localChange [])\<lparr>filenames := None\<rparr>), (Arg 1, localChange ''classes/Bar.cls''),
      (Arg 2, (localChange [])\<lparr>filenames := Some []\<rparr>)] False
     = [(Arg 1, localChange ''classes/Bar.cls'')]
   \<and> (localChange [])\<lparr>filenames := None\<rparr> \<notin> snd ` set (populateTypesAndNames fooEnv fooTracking
     [(Arg 0, (localChange [])\<lparr>filenames := None\<rparr>), (Arg 1, localChange ''classes/Bar.cls''),
      (Arg 2, (localChange [])\<lparr>filenames := Some []\<rparr>)] False)"
  using populateTypesAndNames_drops_without_filenames
    [of "(localChange [])\<lparr>filenames := None\<rparr>" fooEnv fooTracking
      "[(Arg 0, (localChange [])\<lparr>filenames := None\<rparr>), (Arg 1, localChange ''classes/Bar.cls''),
      (Arg 2, (localChange [])\<lparr>filenames := Some []\<rparr>)]" False]
  by (simp add: populateTypesAndNames_def filenamesOf_def setByFilename_def new_Set_def
        Set_add_def localChange_def componentsOf_def fooEnv_def ensureRelative_def)

end
